theory Spec2Isabelle
  imports Main "HOL-Library.Multiset"
begin

section \<open>Object-wise sub-relation based process discovery\<close>

text \<open>
  A shallow embedding of \<^verbatim>\<open>Object-wise-sub-relation-based-process-Discovery.py\<close>.
  The three pandas tables of an object-centric event log are lists of rows, in table
  order. Only the columns the code reads are named; the remaining columns of a row are
  kept as an opaque association list, so that two rows with the same identifiers can
  still differ. Python dictionaries whose insertion order is observable are association
  lists; the dictionary that is only ever looked up is a map. The two PM4Py calls are
  parameters of the model, and each may fail: an exception is the left injection of a
  sum. Console output is not modelled: no function reads it back. The leading
  underscore of the two private functions is dropped from their names.
\<close>

subsection \<open>Data model\<close>

type_synonym columns = "(string \<times> string) list"

record event_row =
  ev_eid :: string
  ev_other :: columns

record object_row =
  ob_oid :: string
  ob_type :: string
  ob_other :: columns

record relation_row =
  rel_eid :: string
  rel_oid :: string
  rel_other :: columns

record ocel =
  events :: "event_row list"
  objects :: "object_row list"
  relations :: "relation_row list"

text \<open>An entry of the universal relation: the dictionary with the keys
  \<^verbatim>\<open>event_id\<close>, \<^verbatim>\<open>object_id\<close> and \<^verbatim>\<open>object_type\<close>; the type is
  \<open>None\<close> when \<^verbatim>\<open>dict.get\<close> finds no entry.\<close>

record ur_entry =
  event_id :: string
  object_id :: string
  object_type :: "string option"

subsection \<open>Library operations the code relies on\<close>

text \<open>\<^verbatim>\<open>dict(zip(keys, values))\<close>: later pairs overwrite earlier ones.\<close>

definition object_id_to_type :: "object_row list \<Rightarrow> (string \<rightharpoonup> string)" where
  "object_id_to_type objs = foldl (\<lambda>m ob. m(ob_oid ob \<mapsto> ob_type ob)) Map.empty objs"

text \<open>\<^verbatim>\<open>d[k].append(v)\<close> on a \<^verbatim>\<open>defaultdict(list)\<close>: an unseen key is
  inserted last with the one-element list, a known key keeps its position.\<close>

fun defaultdict_append :: "('k \<times> 'v list) list \<Rightarrow> 'k \<Rightarrow> 'v \<Rightarrow> ('k \<times> 'v list) list" where
  "defaultdict_append [] k v = [(k, [v])]"
| "defaultdict_append ((k', vs) # d) k v =
     (if k' = k then (k', vs @ [v]) # d else (k', vs) # defaultdict_append d k v)"

text \<open>\<^verbatim>\<open>d[k] = v\<close> on a plain dictionary: a known key keeps its position and takes
  the new value, an unseen key is inserted last.\<close>

fun dict_set :: "('k \<times> 'v) list \<Rightarrow> 'k \<Rightarrow> 'v \<Rightarrow> ('k \<times> 'v) list" where
  "dict_set [] k v = [(k, v)]"
| "dict_set ((k', v') # d) k v =
     (if k' = k then (k', v) # d else (k', v') # dict_set d k v)"

text \<open>\<^verbatim>\<open>Series.unique()\<close>: the values in order of appearance, found with a table
  of the values seen so far.\<close>

fun unique_aux :: "'a list \<Rightarrow> 'a list \<Rightarrow> 'a list" where
  "unique_aux seen [] = seen"
| "unique_aux seen (x # xs) =
     (if x \<in> set seen then unique_aux seen xs else unique_aux (seen @ [x]) xs)"

definition unique :: "'a list \<Rightarrow> 'a list" where
  "unique xs = unique_aux [] xs"

subsection \<open>Extraction of the universal relation\<close>

definition event_to_objects :: "relation_row list \<Rightarrow> (string \<times> string list) list" where
  "event_to_objects rels =
     foldl (\<lambda>d row. defaultdict_append d (rel_eid row) (rel_oid row)) [] rels"

definition extract_universal_relation :: "ocel \<Rightarrow> ur_entry list \<times> nat" where
  "extract_universal_relation L =
     (let m = object_id_to_type (objects L);
          d = event_to_objects (relations L);
          universal_relation =
            concat (map (\<lambda>(eid, oids).
              map (\<lambda>oid. \<lparr>event_id = eid, object_id = oid, object_type = m oid\<rparr>) oids) d);
          total_relation_count = length universal_relation
      in (universal_relation, total_relation_count))"

subsection \<open>The sub-log of one object type\<close>

definition relevant_event_ids :: "ur_entry list \<Rightarrow> string \<Rightarrow> string list" where
  "relevant_event_ids ur T = map event_id (filter (\<lambda>rel. object_type rel = Some T) ur)"

definition sub_events :: "ocel \<Rightarrow> ur_entry list \<Rightarrow> string \<Rightarrow> event_row list" where
  "sub_events L ur T = filter (\<lambda>e. ev_eid e \<in> set (relevant_event_ids ur T)) (events L)"

definition sub_relations :: "ocel \<Rightarrow> ur_entry list \<Rightarrow> string \<Rightarrow> relation_row list" where
  "sub_relations L ur T = filter (\<lambda>r. rel_eid r \<in> set (relevant_event_ids ur T)) (relations L)"

definition related_object_ids :: "ocel \<Rightarrow> ur_entry list \<Rightarrow> string \<Rightarrow> string set" where
  "related_object_ids L ur T = set (map rel_oid (sub_relations L ur T))"

definition related_objects :: "ocel \<Rightarrow> ur_entry list \<Rightarrow> string \<Rightarrow> object_row list" where
  "related_objects L ur T = filter (\<lambda>ob. ob_oid ob \<in> related_object_ids L ur T) (objects L)"

definition sub_ocel :: "ocel \<Rightarrow> ur_entry list \<Rightarrow> string \<Rightarrow> ocel" where
  "sub_ocel L ur T =
     \<lparr>events = sub_events L ur T, objects = related_objects L ur T,
      relations = sub_relations L ur T\<rparr>"

text \<open>The per-type step. \<open>discover_ocdfg\<close> and \<open>view_ocdfg\<close> stand for the PM4Py
  calls; a failure of either leaves the function at once.\<close>

definition discover_sub_model_for_object_type ::
  "(ocel \<Rightarrow> 'e + 'm) \<Rightarrow> ('m \<Rightarrow> 'e + unit) \<Rightarrow> ocel \<Rightarrow> ur_entry list \<Rightarrow> string \<Rightarrow> 'e + (nat \<times> 'm)" where
  "discover_sub_model_for_object_type discover_ocdfg view_ocdfg L ur T =
     (let s = sub_ocel L ur T;
          sub_relation_count = length (relations s)
      in case discover_ocdfg s of
           Inl err \<Rightarrow> Inl err
         | Inr ocdfg_model \<Rightarrow>
             (case view_ocdfg ocdfg_model of
                Inl err \<Rightarrow> Inl err
              | Inr _ \<Rightarrow> Inr (sub_relation_count, ocdfg_model)))"

subsection \<open>The orchestrator\<close>

text \<open>The loop over the object types, threading the two result dictionaries. There is
  no handler around the per-type call, so the first failure ends the run.\<close>

fun discover_loop ::
  "(ocel \<Rightarrow> 'e + 'm) \<Rightarrow> ('m \<Rightarrow> 'e + unit) \<Rightarrow> ocel \<Rightarrow> ur_entry list \<Rightarrow> string list \<Rightarrow>
   (string \<times> nat) list \<Rightarrow> (string \<times> 'm) list \<Rightarrow> 'e + ((string \<times> nat) list \<times> (string \<times> 'm) list)" where
  "discover_loop dis vw L ur [] sub_relation_counts discovered_models =
     Inr (sub_relation_counts, discovered_models)"
| "discover_loop dis vw L ur (obj_type # rest) sub_relation_counts discovered_models =
     (case discover_sub_model_for_object_type dis vw L ur obj_type of
        Inl err \<Rightarrow> Inl err
      | Inr (sub_count, sub_model) \<Rightarrow>
          discover_loop dis vw L ur rest
            (dict_set sub_relation_counts obj_type sub_count)
            (dict_set discovered_models obj_type sub_model))"

definition discover_object_wise_sub_models_with_counts ::
  "(ocel \<Rightarrow> 'e + 'm) \<Rightarrow> ('m \<Rightarrow> 'e + unit) \<Rightarrow> ocel \<Rightarrow>
   'e + (nat \<times> (string \<times> nat) list \<times> (string \<times> 'm) list)" where
  "discover_object_wise_sub_models_with_counts dis vw L =
     (case extract_universal_relation L of
        (universal_relation, total_universal_count) \<Rightarrow>
          (let object_types = unique (map ob_type (objects L))
           in case discover_loop dis vw L universal_relation object_types [] [] of
                Inl err \<Rightarrow> Inl err
              | Inr (sub_relation_counts, discovered_models) \<Rightarrow>
                  Inr (total_universal_count, sub_relation_counts, discovered_models)))"

subsection \<open>The specification's wording of the extraction\<close>

text \<open>The definitions of this subsection are not taken from the code. They write down
  what the specification says the extractor produces, so that the code's result can be
  compared with it: the event identifiers in first-seen order, the rows of each event in
  table order, and the type of an object as the last row of the Object table with that
  identifier gives it.\<close>

fun first_seen :: "'a list \<Rightarrow> 'a list" where
  "first_seen [] = []"
| "first_seen (x # xs) = x # first_seen (filter (\<lambda>y. y \<noteq> x) xs)"

definition spec_type_of :: "object_row list \<Rightarrow> string \<Rightarrow> string option" where
  "spec_type_of objs oid =
     (case filter (\<lambda>ob. ob_oid ob = oid) objs of
        [] \<Rightarrow> None
      | x # xs \<Rightarrow> Some (ob_type (last (x # xs))))"

definition spec_universal_relation :: "ocel \<Rightarrow> ur_entry list" where
  "spec_universal_relation L =
     concat (map (\<lambda>e. map (\<lambda>r. \<lparr>event_id = e, object_id = rel_oid r,
                                   object_type = spec_type_of (objects L) (rel_oid r)\<rparr>)
                         (filter (\<lambda>r. rel_eid r = e) (relations L)))
                 (first_seen (map rel_eid (relations L))))"

subsection \<open>Auxiliary notions for the proofs\<close>

text \<open>The pairs held by a dictionary of lists, in iteration order; the dictionary of
  lists the grouping is shown to build; and the entry a relation row gives rise to.\<close>

definition pairs_of :: "('k \<times> 'v list) list \<Rightarrow> ('k \<times> 'v) list" where
  "pairs_of d = concat (map (\<lambda>(k, vs). map (Pair k) vs) d)"

definition groups_of :: "relation_row list \<Rightarrow> (string \<times> string list) list" where
  "groups_of rels =
     map (\<lambda>e. (e, map rel_oid (filter (\<lambda>r. rel_eid r = e) rels))) (first_seen (map rel_eid rels))"

definition entry_of :: "(string \<rightharpoonup> string) \<Rightarrow> relation_row \<Rightarrow> ur_entry" where
  "entry_of m r = \<lparr>event_id = rel_eid r, object_id = rel_oid r, object_type = m (rel_oid r)\<rparr>"

subsection \<open>Concrete logs\<close>

text \<open>\<open>scenario_log\<close> is the log of the specification's concrete scenario.
  \<open>dangling_log\<close> has a relation row whose object \<^verbatim>\<open>o9\<close> is not in the Object
  table, and an object type \<^verbatim>\<open>item\<close> that no relation row reaches. In
  \<open>repeated_log\<close> the event \<^verbatim>\<open>e1\<close> has two relations to objects of the same type.
  \<open>picky_discover\<close> is a discovery service that refuses a sub-log without events and
  otherwise returns the sub-log it was given.\<close>

definition scenario_log :: ocel where
  "scenario_log =
     \<lparr>events = [\<lparr>ev_eid = ''e1'', ev_other = []\<rparr>, \<lparr>ev_eid = ''e2'', ev_other = []\<rparr>],
      objects = [\<lparr>ob_oid = ''o1'', ob_type = ''order'', ob_other = []\<rparr>,
                 \<lparr>ob_oid = ''o2'', ob_type = ''item'', ob_other = []\<rparr>],
      relations = [\<lparr>rel_eid = ''e1'', rel_oid = ''o1'', rel_other = []\<rparr>,
                   \<lparr>rel_eid = ''e1'', rel_oid = ''o2'', rel_other = []\<rparr>,
                   \<lparr>rel_eid = ''e2'', rel_oid = ''o2'', rel_other = []\<rparr>]\<rparr>"

definition dangling_log :: ocel where
  "dangling_log =
     \<lparr>events = [\<lparr>ev_eid = ''e1'', ev_other = []\<rparr>],
      objects = [\<lparr>ob_oid = ''o1'', ob_type = ''order'', ob_other = []\<rparr>,
                 \<lparr>ob_oid = ''o2'', ob_type = ''item'', ob_other = []\<rparr>],
      relations = [\<lparr>rel_eid = ''e1'', rel_oid = ''o1'', rel_other = []\<rparr>,
                   \<lparr>rel_eid = ''e1'', rel_oid = ''o9'', rel_other = []\<rparr>]\<rparr>"

definition repeated_log :: ocel where
  "repeated_log =
     \<lparr>events = [\<lparr>ev_eid = ''e1'', ev_other = []\<rparr>, \<lparr>ev_eid = ''e2'', ev_other = []\<rparr>],
      objects = [\<lparr>ob_oid = ''o1'', ob_type = ''item'', ob_other = []\<rparr>,
                 \<lparr>ob_oid = ''o2'', ob_type = ''item'', ob_other = []\<rparr>],
      relations = [\<lparr>rel_eid = ''e1'', rel_oid = ''o1'', rel_other = []\<rparr>,
                   \<lparr>rel_eid = ''e1'', rel_oid = ''o2'', rel_other = []\<rparr>]\<rparr>"

definition picky_discover :: "ocel \<Rightarrow> unit + ocel" where
  "picky_discover s = (if events s = [] then Inl () else Inr s)"

section \<open>Properties\<close>

subsection \<open>Order of appearance\<close>

lemma unique_aux_snoc:
  "unique_aux seen (xs @ [x]) =
     (if x \<in> set (unique_aux seen xs) then unique_aux seen xs else unique_aux seen xs @ [x])"
  by (induction xs arbitrary: seen) auto

lemma set_unique_aux: "set (unique_aux seen xs) = set seen \<union> set xs"
  by (induction xs arbitrary: seen) auto

lemma distinct_unique_aux: "distinct seen \<Longrightarrow> distinct (unique_aux seen xs)"
  by (induction xs arbitrary: seen) auto

lemma unique_aux_first_seen:
  "unique_aux seen xs = seen @ first_seen (filter (\<lambda>x. x \<notin> set seen) xs)"
proof (induction xs arbitrary: seen)
  case Nil
  then show ?case by simp
next
  case (Cons x xs)
  have "filter (\<lambda>y. y \<noteq> x) (filter (\<lambda>y. y \<notin> set seen) xs) = filter (\<lambda>y. y \<notin> set (seen @ [x])) xs"
    by (auto intro: filter_cong)
  with Cons show ?case by simp
qed

lemma unique_first_seen: "unique xs = first_seen xs"
  by (simp add: unique_def unique_aux_first_seen)

lemma set_unique: "set (unique xs) = set xs"
  by (simp add: unique_def set_unique_aux)

lemma distinct_unique: "distinct (unique xs)"
  by (simp add: unique_def distinct_unique_aux)

lemma unique_snoc:
  "unique (xs @ [x]) = (if x \<in> set xs then unique xs else unique xs @ [x])"
  by (simp add: unique_def unique_aux_snoc set_unique_aux)

subsection \<open>The grouping keeps every row\<close>

lemma mset_pairs_of_append:
  "mset (pairs_of (defaultdict_append d k v)) = mset (pairs_of d) + {#(k, v)#}"
  by (induction d k v rule: defaultdict_append.induct) (auto simp: pairs_of_def)

lemma mset_pairs_of_foldl:
  "mset (pairs_of (foldl (\<lambda>d row. defaultdict_append d (rel_eid row) (rel_oid row)) d rels))
     = mset (pairs_of d) + mset (map (\<lambda>r. (rel_eid r, rel_oid r)) rels)"
  by (induction rels arbitrary: d) (auto simp: mset_pairs_of_append)

lemma mset_pairs_of_event_to_objects:
  "mset (pairs_of (event_to_objects rels)) = mset (map (\<lambda>r. (rel_eid r, rel_oid r)) rels)"
  by (simp add: event_to_objects_def mset_pairs_of_foldl) (simp add: pairs_of_def)

subsection \<open>The grouping is by event, in first-seen order\<close>

lemma defaultdict_append_map:
  "distinct ks \<Longrightarrow>
   defaultdict_append (map (\<lambda>e. (e, g e)) ks) k v =
     (if k \<in> set ks then map (\<lambda>e. (e, if e = k then g e @ [v] else g e)) ks
      else map (\<lambda>e. (e, g e)) ks @ [(k, [v])])"
  by (induction ks) auto

lemma filter_eid_empty: "e \<notin> rel_eid ` set rels \<Longrightarrow> filter (\<lambda>r. rel_eid r = e) rels = []"
  by (induction rels) auto

lemma groups_of_snoc:
  "groups_of (rels @ [r]) = defaultdict_append (groups_of rels) (rel_eid r) (rel_oid r)"
proof -
  let ?U = "unique (map rel_eid rels)"
  have d: "distinct ?U" by (rule distinct_unique)
  have s: "set ?U = rel_eid ` set rels" by (simp add: set_unique)
  show ?thesis
  proof (cases "rel_eid r \<in> rel_eid ` set rels")
    case True
    then show ?thesis
      using d s
      by (simp add: groups_of_def unique_first_seen [symmetric] unique_snoc defaultdict_append_map)
  next
    case False
    then show ?thesis
      using d s
      by (auto simp add: groups_of_def unique_first_seen [symmetric] unique_snoc defaultdict_append_map filter_eid_empty)
  qed
qed

lemma event_to_objects_groups: "event_to_objects rels = groups_of rels"
proof (induction rels rule: rev_induct)
  case Nil
  then show ?case by (simp add: event_to_objects_def groups_of_def)
next
  case (snoc r rels)
  then show ?case by (simp add: event_to_objects_def groups_of_snoc)
qed

subsection \<open>The universal relation as a rearrangement of the Relation table\<close>

lemma concat_pairs_of:
  "concat (map (\<lambda>(k, vs). map (f k) vs) d) = map (\<lambda>(k, v). f k v) (pairs_of d)"
  by (induction d) (auto simp: pairs_of_def)

lemma universal_relation_pairs:
  "fst (extract_universal_relation L) =
     map (\<lambda>(e, oid). \<lparr>event_id = e, object_id = oid,
                       object_type = object_id_to_type (objects L) oid\<rparr>)
       (pairs_of (event_to_objects (relations L)))"
  by (simp add: extract_universal_relation_def Let_def concat_pairs_of)

lemma mset_universal_relation:
  "mset (fst (extract_universal_relation L)) =
     mset (map (entry_of (object_id_to_type (objects L))) (relations L))"
proof -
  let ?f = "\<lambda>(e, oid). \<lparr>event_id = e, object_id = oid,
                       object_type = object_id_to_type (objects L) oid\<rparr>"
  have "mset (fst (extract_universal_relation L)) =
          image_mset ?f (mset (pairs_of (event_to_objects (relations L))))"
    by (simp add: universal_relation_pairs)
  also have "\<dots> = image_mset ?f (mset (map (\<lambda>r. (rel_eid r, rel_oid r)) (relations L)))"
    by (simp only: mset_pairs_of_event_to_objects)
  also have "\<dots> = mset (map (entry_of (object_id_to_type (objects L))) (relations L))"
    by (simp add: multiset.map_comp comp_def entry_of_def [abs_def])
  finally show ?thesis .
qed

lemma length_universal_relation:
  "length (fst (extract_universal_relation L)) = length (relations L)"
  using arg_cong [OF mset_universal_relation, of size] by simp

lemma snd_extract:
  "snd (extract_universal_relation L) = length (fst (extract_universal_relation L))"
  by (simp add: extract_universal_relation_def Let_def)

lemma set_universal_relation:
  "set (fst (extract_universal_relation L)) =
     entry_of (object_id_to_type (objects L)) ` set (relations L)"
  using arg_cong [OF mset_universal_relation, of set_mset] by simp

lemma length_filter_universal_relation:
  "length (filter P (fst (extract_universal_relation L))) =
     length (filter (\<lambda>r. P (entry_of (object_id_to_type (objects L)) r)) (relations L))"
proof -
  have "size (filter_mset P (mset (fst (extract_universal_relation L)))) =
        size (filter_mset P (mset (map (entry_of (object_id_to_type (objects L))) (relations L))))"
    by (simp only: mset_universal_relation)
  then show ?thesis
    by (simp add: filter_mset_image_mset comp_def del: mset_map flip: mset_filter)
qed

lemma set_relevant_event_ids:
  "set (relevant_event_ids (fst (extract_universal_relation L)) T) =
     {rel_eid r | r. r \<in> set (relations L) \<and> object_id_to_type (objects L) (rel_oid r) = Some T}"
  (is "?A = ?B")
proof (rule set_eqI)
  fix e
  let ?m = "object_id_to_type (objects L)"
  have "e \<in> ?A \<longleftrightarrow>
          (\<exists>x \<in> set (fst (extract_universal_relation L)). object_type x = Some T \<and> event_id x = e)"
    by (auto simp: relevant_event_ids_def)
  also have "\<dots> \<longleftrightarrow>
          (\<exists>r \<in> set (relations L). object_type (entry_of ?m r) = Some T \<and> event_id (entry_of ?m r) = e)"
    by (simp add: set_universal_relation)
  also have "\<dots> \<longleftrightarrow> e \<in> ?B"
    by (auto simp: entry_of_def)
  finally show "e \<in> ?A \<longleftrightarrow> e \<in> ?B" .
qed

subsection \<open>The object-type lookup\<close>

lemma foldl_upd_None:
  "foldl (\<lambda>m ob. m(ob_oid ob \<mapsto> ob_type ob)) m0 objs k = None \<longleftrightarrow>
     m0 k = None \<and> k \<notin> ob_oid ` set objs"
  by (induction objs arbitrary: m0) auto

lemma object_id_to_type_None:
  "object_id_to_type objs k = None \<longleftrightarrow> k \<notin> ob_oid ` set objs"
  by (simp add: object_id_to_type_def foldl_upd_None)

lemma foldl_upd_last:
  "foldl (\<lambda>m ob. m(ob_oid ob \<mapsto> ob_type ob)) m0 objs k =
     (case filter (\<lambda>ob. ob_oid ob = k) objs of [] \<Rightarrow> m0 k | x # xs \<Rightarrow> Some (ob_type (last (x # xs))))"
  by (induction objs arbitrary: m0) (auto split: list.splits)

lemma object_id_to_type_Some:
  assumes "object_id_to_type objs k = Some T"
  shows "\<exists>ob \<in> set objs. ob_oid ob = k \<and> ob_type ob = T"
proof (cases "filter (\<lambda>ob. ob_oid ob = k) objs")
  case Nil
  with assms show ?thesis
    by (simp add: object_id_to_type_def foldl_upd_last)
next
  case (Cons x xs)
  with assms have T: "T = ob_type (last (x # xs))"
    by (simp add: object_id_to_type_def foldl_upd_last)
  have "last (x # xs) \<in> set (filter (\<lambda>ob. ob_oid ob = k) objs)"
    unfolding Cons by (rule last_in_set) simp
  with T show ?thesis by auto
qed

subsection \<open>The loop over the object types\<close>

lemma dict_set_fresh: "k \<notin> fst ` set d \<Longrightarrow> dict_set d k v = d @ [(k, v)]"
  by (induction d) auto

lemma discover_loop_Inr:
  "discover_loop dis vw L ur Ts c m = Inr (c', m') \<Longrightarrow> distinct Ts \<Longrightarrow>
   set Ts \<inter> fst ` set c = {} \<Longrightarrow> set Ts \<inter> fst ` set m = {} \<Longrightarrow>
     c' = c @ map (\<lambda>T. (T, length (sub_relations L ur T))) Ts \<and>
     map (\<lambda>(T, x). (T, Inr x)) m' =
       map (\<lambda>(T, x). (T, Inr x)) m @ map (\<lambda>T. (T, dis (sub_ocel L ur T))) Ts"
proof (induction Ts arbitrary: c m)
  case Nil
  then show ?case by simp
next
  case (Cons T Ts)
  from Cons.prems(1) obtain n x where
    step: "discover_sub_model_for_object_type dis vw L ur T = Inr (n, x)" and
    rest: "discover_loop dis vw L ur Ts (dict_set c T n) (dict_set m T x) = Inr (c', m')"
    by (auto split: sum.splits)
  from step have n: "n = length (sub_relations L ur T)" and x: "dis (sub_ocel L ur T) = Inr x"
    by (auto simp: discover_sub_model_for_object_type_def Let_def sub_ocel_def split: sum.splits)
  from Cons.prems have fc: "T \<notin> fst ` set c" and fm: "T \<notin> fst ` set m" by auto
  have c1: "dict_set c T n = c @ [(T, n)]" using fc by (rule dict_set_fresh)
  have m1: "dict_set m T x = m @ [(T, x)]" using fm by (rule dict_set_fresh)
  have "distinct Ts" "set Ts \<inter> fst ` set (c @ [(T, n)]) = {}" "set Ts \<inter> fst ` set (m @ [(T, x)]) = {}"
    using Cons.prems by auto
  with Cons.IH [of "c @ [(T, n)]" "m @ [(T, x)]"] rest c1 m1
  show ?case using n x by simp
qed

lemma run_Inr:
  assumes "discover_object_wise_sub_models_with_counts dis vw L = Inr (t, c, ms)"
  shows "t = length (relations L)"
    and "c = map (\<lambda>T. (T, length (sub_relations L (fst (extract_universal_relation L)) T)))
               (unique (map ob_type (objects L)))"
    and "map (\<lambda>(T, x). (T, Inr x)) ms =
           map (\<lambda>T. (T, dis (sub_ocel L (fst (extract_universal_relation L)) T)))
               (unique (map ob_type (objects L)))"
proof -
  let ?ur = "fst (extract_universal_relation L)"
  let ?Ts = "unique (map ob_type (objects L))"
  from assms have t: "t = snd (extract_universal_relation L)" and
    loop: "discover_loop dis vw L ?ur ?Ts [] [] = Inr (c, ms)"
    by (auto simp: discover_object_wise_sub_models_with_counts_def Let_def
             split: prod.splits sum.splits)
  from t show "t = length (relations L)"
    by (simp add: snd_extract length_universal_relation)
  from discover_loop_Inr [OF loop distinct_unique]
  show "c = map (\<lambda>T. (T, length (sub_relations L ?ur T))) ?Ts"
    and "map (\<lambda>(T, x). (T, Inr x)) ms = map (\<lambda>T. (T, dis (sub_ocel L ?ur T))) ?Ts"
    by simp_all
qed

subsection \<open>The concrete logs, evaluated\<close>

lemma scenario_run:
  "discover_object_wise_sub_models_with_counts Inr (\<lambda>_. Inr ()) scenario_log =
     (Inr (3, [(''order'', 2), (''item'', 3)],
        [(''order'', \<lparr>events = [\<lparr>ev_eid = ''e1'', ev_other = []\<rparr>],
                      objects = objects scenario_log,
                      relations = [\<lparr>rel_eid = ''e1'', rel_oid = ''o1'', rel_other = []\<rparr>,
                                   \<lparr>rel_eid = ''e1'', rel_oid = ''o2'', rel_other = []\<rparr>]\<rparr>),
         (''item'', scenario_log)]) :: unit + _)"
  by code_simp

lemma dangling_run:
  "discover_object_wise_sub_models_with_counts Inr (\<lambda>_. Inr ()) dangling_log =
     (Inr (2, [(''order'', 2), (''item'', 0)],
        [(''order'', \<lparr>events = events dangling_log,
                      objects = [\<lparr>ob_oid = ''o1'', ob_type = ''order'', ob_other = []\<rparr>],
                      relations = relations dangling_log\<rparr>),
         (''item'', \<lparr>events = [], objects = [], relations = []\<rparr>)]) :: unit + _)"
  by code_simp

lemma dangling_universal_relation:
  "fst (extract_universal_relation dangling_log) =
     [\<lparr>event_id = ''e1'', object_id = ''o1'', object_type = Some ''order''\<rparr>,
      \<lparr>event_id = ''e1'', object_id = ''o9'', object_type = None\<rparr>]"
  by code_simp

lemma scenario_sub_ocel_order:
  "sub_ocel scenario_log (fst (extract_universal_relation scenario_log)) ''order'' =
     \<lparr>events = [\<lparr>ev_eid = ''e1'', ev_other = []\<rparr>],
      objects = objects scenario_log,
      relations = [\<lparr>rel_eid = ''e1'', rel_oid = ''o1'', rel_other = []\<rparr>,
                   \<lparr>rel_eid = ''e1'', rel_oid = ''o2'', rel_other = []\<rparr>]\<rparr>"
  by code_simp

lemma scenario_sub_ocel_item:
  "sub_ocel scenario_log (fst (extract_universal_relation scenario_log)) ''item'' = scenario_log"
  by code_simp

lemma repeated_relevant:
  "relevant_event_ids (fst (extract_universal_relation repeated_log)) ''item'' = [''e1'', ''e1'']"
  by code_simp

lemma repeated_sub_ocel:
  "sub_ocel repeated_log (fst (extract_universal_relation repeated_log)) ''item'' =
     \<lparr>events = [\<lparr>ev_eid = ''e1'', ev_other = []\<rparr>],
      objects = objects repeated_log, relations = relations repeated_log\<rparr>"
  by code_simp

subsection \<open>Further facts about filters and the loop\<close>

lemma count_list_filter:
  "count_list (filter P xs) x = (if P x then count_list xs x else 0)"
  by (induction xs) auto

lemma length_filter_mono:
  "(\<And>x. x \<in> set xs \<Longrightarrow> P x \<Longrightarrow> Q x) \<Longrightarrow> length (filter P xs) \<le> length (filter Q xs)"
  by (induction xs) auto

lemma discover_loop_succeeds:
  "(\<And>T. T \<in> set Ts \<Longrightarrow> \<exists>x. dis (sub_ocel L ur T) = Inr x \<and> vw x = Inr ()) \<Longrightarrow>
   \<exists>c' m'. discover_loop dis vw L ur Ts c m = Inr (c', m')"
proof (induction Ts arbitrary: c m)
  case Nil
  then show ?case by simp
next
  case (Cons T Ts)
  from Cons.prems [of T] obtain x where x: "dis (sub_ocel L ur T) = Inr x" "vw x = Inr ()"
    by auto
  have "\<exists>c' m'. discover_loop dis vw L ur Ts
          (dict_set c T (length (relations (sub_ocel L ur T)))) (dict_set m T x) = Inr (c', m')"
    by (rule Cons.IH) (simp add: Cons.prems)
  with x show ?case
    by (simp add: discover_sub_model_for_object_type_def Let_def)
qed

lemma discover_loop_cong:
  "(\<And>T. T \<in> set Ts \<Longrightarrow>
      discover_sub_model_for_object_type dis1 vw1 L ur T =
      discover_sub_model_for_object_type dis2 vw2 L ur T) \<Longrightarrow>
   discover_loop dis1 vw1 L ur Ts c m = discover_loop dis2 vw2 L ur Ts c m"
proof (induction Ts arbitrary: c m)
  case Nil
  then show ?case by simp
next
  case (Cons T Ts)
  have step: "discover_sub_model_for_object_type dis1 vw1 L ur T =
              discover_sub_model_for_object_type dis2 vw2 L ur T"
    by (rule Cons.prems) simp
  have rest: "\<And>c m. discover_loop dis1 vw1 L ur Ts c m = discover_loop dis2 vw2 L ur Ts c m"
    by (rule Cons.IH) (simp add: Cons.prems)
  show ?case
    by (simp add: step rest split: sum.splits prod.splits)
qed

lemma relations_sub_ocel: "relations (sub_ocel L ur T) = sub_relations L ur T"
  by (simp add: sub_ocel_def)

lemma events_sub_ocel: "events (sub_ocel L ur T) = sub_events L ur T"
  by (simp add: sub_ocel_def)

lemma objects_sub_ocel: "objects (sub_ocel L ur T) = related_objects L ur T"
  by (simp add: sub_ocel_def)

lemma object_id_to_type_spec: "object_id_to_type objs = spec_type_of objs"
  by (rule ext) (simp add: object_id_to_type_def spec_type_of_def foldl_upd_last)

lemma scenario_step_order:
  "discover_sub_model_for_object_type Inr (\<lambda>_. Inr ()) scenario_log
     (fst (extract_universal_relation scenario_log)) ''order'' =
   (Inr (2, \<lparr>events = [\<lparr>ev_eid = ''e1'', ev_other = []\<rparr>],
             objects = objects scenario_log,
             relations = [\<lparr>rel_eid = ''e1'', rel_oid = ''o1'', rel_other = []\<rparr>,
                          \<lparr>rel_eid = ''e1'', rel_oid = ''o2'', rel_other = []\<rparr>]\<rparr>) :: unit + _)"
  by code_simp

lemma dangling_step_item:
  "discover_sub_model_for_object_type Inr (\<lambda>_. Inr ()) dangling_log
     (fst (extract_universal_relation dangling_log)) ''item'' =
   (Inr (0, \<lparr>events = [], objects = [], relations = []\<rparr>) :: unit + _)"
  by code_simp

lemma dangling_sub_relations_order:
  "sub_relations dangling_log (fst (extract_universal_relation dangling_log)) ''order'' =
     [\<lparr>rel_eid = ''e1'', rel_oid = ''o1'', rel_other = []\<rparr>,
      \<lparr>rel_eid = ''e1'', rel_oid = ''o9'', rel_other = []\<rparr>]"
  by code_simp

lemma dangling_sub_relations_item:
  "sub_relations dangling_log (fst (extract_universal_relation dangling_log)) ''item'' = []"
  by code_simp

lemma dangling_sub_ocel_item:
  "sub_ocel dangling_log (fst (extract_universal_relation dangling_log)) ''item'' =
     \<lparr>events = [], objects = [], relations = []\<rparr>"
  by code_simp

lemma run_succeeds:
  assumes "\<And>T. T \<in> set (map ob_type (objects L)) \<Longrightarrow>
             \<exists>x. dis (sub_ocel L (fst (extract_universal_relation L)) T) = Inr x \<and> vw x = Inr ()"
  shows "\<exists>c ms. discover_object_wise_sub_models_with_counts dis vw L =
                  Inr (length (relations L), c, ms)"
proof -
  let ?ur = "fst (extract_universal_relation L)"
  have "\<exists>c' m'. discover_loop dis vw L ?ur (unique (map ob_type (objects L))) [] [] = Inr (c', m')"
    by (rule discover_loop_succeeds) (rule assms, simp add: set_unique)
  then obtain c' m' where
    "discover_loop dis vw L ?ur (unique (map ob_type (objects L))) [] [] = Inr (c', m')"
    by blast
  then have "discover_object_wise_sub_models_with_counts dis vw L =
               Inr (snd (extract_universal_relation L), c', m')"
    by (simp add: discover_object_wise_sub_models_with_counts_def Let_def case_prod_unfold)
  then show ?thesis
    by (simp add: snd_extract length_universal_relation)
qed

section \<open>The claims\<close>

text \<open>Throughout, \<open>dis\<close> and \<open>vw\<close> are the two external calls, and a run
  \<open>returns\<close> when its value is a right injection.\<close>

text \<open>C1. Count conservation. For every log, the count returned by the extractor and
  the length of the universal relation both equal the number of rows of the Relation
  table, and whenever the orchestrator returns, its total count is that number. Nothing
  is assumed about the object identifiers, so rows that reference an object missing from
  the Object table are covered.\<close>

theorem C1_count_conservation:
  "snd (extract_universal_relation L) = length (relations L) \<and>
   length (fst (extract_universal_relation L)) = length (relations L) \<and>
   (\<forall>total counts models.
      discover_object_wise_sub_models_with_counts dis vw L = Inr (total, counts, models) \<longrightarrow>
      total = length (relations L) \<and> total = length (fst (extract_universal_relation L)))"
  by (auto simp: snd_extract length_universal_relation dest: run_Inr(1))

text \<open>The statement at \<open>dangling_log\<close>, whose second relation row references the
  unknown object \<^verbatim>\<open>o9\<close>: the run returns, and all three numbers are 2.\<close>

theorem C1_count_conservation_witness:
  "snd (extract_universal_relation dangling_log) = 2 \<and>
   length (fst (extract_universal_relation dangling_log)) = 2 \<and>
   (\<exists>counts models.
      discover_object_wise_sub_models_with_counts Inr (\<lambda>_. Inr ()) dangling_log =
        (Inr (2, counts, models) :: unit + _)) \<and>
   \<lparr>rel_eid = ''e1'', rel_oid = ''o9'', rel_other = []\<rparr> \<in> set (relations dangling_log) \<and>
   ''o9'' \<notin> ob_oid ` set (objects dangling_log)"
proof -
  have len: "length (relations dangling_log) = 2"
    by (simp add: dangling_log_def)
  have mem: "\<lparr>rel_eid = ''e1'', rel_oid = ''o9'', rel_other = []\<rparr> \<in> set (relations dangling_log)"
    "''o9'' \<notin> ob_oid ` set (objects dangling_log)"
    by (simp_all add: dangling_log_def)
  from C1_count_conservation [of dangling_log "Inr :: ocel \<Rightarrow> unit + ocel" "\<lambda>_. Inr ()"]
  show ?thesis using len mem dangling_run by simp
qed

text \<open>C2. Partition completeness. If a relation row's object identifier resolves to the
  type \<open>T\<close>, then \<open>T\<close> is one of the enumerated object types, the row's event
  identifier is among the relevant event identifiers of \<open>T\<close>, and the row is in the
  Relation table of the sub-log built for \<open>T\<close>.\<close>

theorem C2_partition_completeness:
  assumes "r \<in> set (relations L)"
    and "object_id_to_type (objects L) (rel_oid r) = Some T"
  shows "T \<in> set (unique (map ob_type (objects L))) \<and>
         rel_eid r \<in> set (relevant_event_ids (fst (extract_universal_relation L)) T) \<and>
         r \<in> set (relations (sub_ocel L (fst (extract_universal_relation L)) T))"
proof -
  from object_id_to_type_Some [OF assms(2)]
  have T: "T \<in> set (unique (map ob_type (objects L)))"
    by (auto simp: set_unique)
  from assms have e: "rel_eid r \<in> set (relevant_event_ids (fst (extract_universal_relation L)) T)"
    unfolding set_relevant_event_ids by blast
  with assms(1) have "r \<in> set (relations (sub_ocel L (fst (extract_universal_relation L)) T))"
    by (simp add: relations_sub_ocel sub_relations_def)
  with T e show ?thesis by simp
qed

text \<open>The statement at the scenario's first relation row and the type
  \<^verbatim>\<open>order\<close>.\<close>

theorem C2_partition_completeness_witness:
  "\<lparr>rel_eid = ''e1'', rel_oid = ''o1'', rel_other = []\<rparr> \<in> set (relations scenario_log) \<and>
   object_id_to_type (objects scenario_log) ''o1'' = Some ''order'' \<and>
   ''order'' \<in> set (unique (map ob_type (objects scenario_log))) \<and>
   ''e1'' \<in> set (relevant_event_ids (fst (extract_universal_relation scenario_log)) ''order'') \<and>
   \<lparr>rel_eid = ''e1'', rel_oid = ''o1'', rel_other = []\<rparr>
     \<in> set (relations (sub_ocel scenario_log (fst (extract_universal_relation scenario_log)) ''order''))"
proof -
  let ?r = "\<lparr>rel_eid = ''e1'', rel_oid = ''o1'', rel_other = []\<rparr>"
  have a: "?r \<in> set (relations scenario_log)"
    by (simp add: scenario_log_def)
  have b: "object_id_to_type (objects scenario_log) (rel_oid ?r) = Some ''order''"
    by (simp add: scenario_log_def object_id_to_type_def)
  from C2_partition_completeness [OF a b] a b show ?thesis by simp
qed

text \<open>C3. The per-type count is the number of rows of the sub-log's Relation table, that
  is, of all relation rows whose event is relevant to the type, whatever the type of the
  object they link to. The orchestrator records exactly these numbers, one per enumerated
  type. On the scenario log every run that returns gives the total 3 and the counts 2 for
  \<^verbatim>\<open>order\<close> and 3 for \<^verbatim>\<open>item\<close>, although only one relation row resolves to
  \<^verbatim>\<open>order\<close>.\<close>

theorem C3_sub_count:
  "(\<forall>c x. discover_sub_model_for_object_type dis vw L ur T = Inr (c, x) \<longrightarrow>
      c = length (relations (sub_ocel L ur T)) \<and>
      c = length (filter (\<lambda>r. rel_eid r \<in> set (relevant_event_ids ur T)) (relations L))) \<and>
   (\<forall>t counts models.
      discover_object_wise_sub_models_with_counts dis vw L = Inr (t, counts, models) \<longrightarrow>
      counts = map (\<lambda>T. (T, length (relations (sub_ocel L (fst (extract_universal_relation L)) T))))
                 (unique (map ob_type (objects L)))) \<and>
   (\<forall>t counts models.
      discover_object_wise_sub_models_with_counts dis vw scenario_log = Inr (t, counts, models) \<longrightarrow>
      t = 3 \<and> counts = [(''order'', 2), (''item'', 3)]) \<and>
   length (filter (\<lambda>r. object_id_to_type (objects scenario_log) (rel_oid r) = Some ''order'')
             (relations scenario_log)) = 1"
proof (intro conjI allI impI)
  fix c x
  assume "discover_sub_model_for_object_type dis vw L ur T = Inr (c, x)"
  then have c: "c = length (relations (sub_ocel L ur T))"
    by (auto simp: discover_sub_model_for_object_type_def Let_def split: sum.splits)
  then show "c = length (relations (sub_ocel L ur T))" .
  from c show "c = length (filter (\<lambda>r. rel_eid r \<in> set (relevant_event_ids ur T)) (relations L))"
    by (simp add: relations_sub_ocel sub_relations_def)
next
  fix t counts models
  assume "discover_object_wise_sub_models_with_counts dis vw L = Inr (t, counts, models)"
  from run_Inr(2) [OF this]
  show "counts = map (\<lambda>T. (T, length (relations (sub_ocel L (fst (extract_universal_relation L)) T))))
                 (unique (map ob_type (objects L)))"
    by (simp add: relations_sub_ocel)
next
  fix t counts models
  assume run: "discover_object_wise_sub_models_with_counts dis vw scenario_log = Inr (t, counts, models)"
  have u: "unique (map ob_type (objects scenario_log)) = [''order'', ''item'']"
    by code_simp
  from run_Inr(1) [OF run] show "t = 3"
    by (simp add: scenario_log_def)
  from run_Inr(2) [OF run] show "counts = [(''order'', 2), (''item'', 3)]"
    unfolding u
    by (simp add: relations_sub_ocel [symmetric] scenario_sub_ocel_order scenario_sub_ocel_item)
       (simp add: scenario_log_def)
next
  show "length (filter (\<lambda>r. object_id_to_type (objects scenario_log) (rel_oid r) = Some ''order'')
             (relations scenario_log)) = 1"
    by (simp add: scenario_log_def object_id_to_type_def)
qed

text \<open>A run on the scenario log that returns, with the counts the statement gives.\<close>

theorem C3_sub_count_witness:
  "(\<exists>models. discover_object_wise_sub_models_with_counts Inr (\<lambda>_. Inr ()) scenario_log =
      (Inr (3, [(''order'', 2), (''item'', 3)], models) :: unit + _)) \<and>
   map (\<lambda>T. (T, length (relations (sub_ocel scenario_log
                 (fst (extract_universal_relation scenario_log)) T))))
     (unique (map ob_type (objects scenario_log))) = [(''order'', 2), (''item'', 3)]"
  using C3_sub_count [of "Inr :: ocel \<Rightarrow> unit + ocel" "\<lambda>_. Inr ()" scenario_log "[]" "[]"]
    scenario_run
  by simp

text \<open>C4. Self-consistency of the sub-log. In the sub-log built for a type \<open>T\<close> from
  the extracted universal relation, every event row has a relation row of the sub-log
  with its event identifier, and every object row has a relation row of the sub-log with
  its object identifier. This holds for every log; referential consistency of the input
  is not needed.\<close>

theorem C4_self_consistency:
  "(\<forall>e \<in> set (events (sub_ocel L (fst (extract_universal_relation L)) T)).
      \<exists>r \<in> set (relations (sub_ocel L (fst (extract_universal_relation L)) T)).
        rel_eid r = ev_eid e) \<and>
   (\<forall>ob \<in> set (objects (sub_ocel L (fst (extract_universal_relation L)) T)).
      \<exists>r \<in> set (relations (sub_ocel L (fst (extract_universal_relation L)) T)).
        rel_oid r = ob_oid ob)"
proof (intro conjI ballI)
  let ?ur = "fst (extract_universal_relation L)"
  fix e
  assume "e \<in> set (events (sub_ocel L ?ur T))"
  then have "ev_eid e \<in> set (relevant_event_ids ?ur T)"
    by (simp add: events_sub_ocel sub_events_def)
  then obtain r where r: "r \<in> set (relations L)" "rel_eid r = ev_eid e"
    unfolding set_relevant_event_ids by auto
  with \<open>ev_eid e \<in> set (relevant_event_ids ?ur T)\<close>
  have "r \<in> set (relations (sub_ocel L ?ur T))"
    by (simp add: relations_sub_ocel sub_relations_def)
  with r show "\<exists>r \<in> set (relations (sub_ocel L ?ur T)). rel_eid r = ev_eid e"
    by blast
next
  let ?ur = "fst (extract_universal_relation L)"
  fix ob
  assume "ob \<in> set (objects (sub_ocel L ?ur T))"
  then have "ob_oid ob \<in> rel_oid ` set (sub_relations L ?ur T)"
    by (simp add: objects_sub_ocel related_objects_def related_object_ids_def)
  then show "\<exists>r \<in> set (relations (sub_ocel L ?ur T)). rel_oid r = ob_oid ob"
    by (auto simp: relations_sub_ocel)
qed

text \<open>The statement at the scenario's sub-log for \<^verbatim>\<open>order\<close>, which has an event
  row and an object row of another type.\<close>

theorem C4_self_consistency_witness:
  "\<lparr>ev_eid = ''e1'', ev_other = []\<rparr>
     \<in> set (events (sub_ocel scenario_log (fst (extract_universal_relation scenario_log)) ''order'')) \<and>
   (\<exists>r \<in> set (relations (sub_ocel scenario_log (fst (extract_universal_relation scenario_log)) ''order'')).
      rel_eid r = ''e1'') \<and>
   \<lparr>ob_oid = ''o2'', ob_type = ''item'', ob_other = []\<rparr>
     \<in> set (objects (sub_ocel scenario_log (fst (extract_universal_relation scenario_log)) ''order'')) \<and>
   (\<exists>r \<in> set (relations (sub_ocel scenario_log (fst (extract_universal_relation scenario_log)) ''order'')).
      rel_oid r = ''o2'')"
proof -
  let ?s = "sub_ocel scenario_log (fst (extract_universal_relation scenario_log)) ''order''"
  have e: "\<lparr>ev_eid = ''e1'', ev_other = []\<rparr> \<in> set (events ?s)"
    by (simp add: scenario_sub_ocel_order)
  have ob: "\<lparr>ob_oid = ''o2'', ob_type = ''item'', ob_other = []\<rparr> \<in> set (objects ?s)"
    by (simp add: scenario_sub_ocel_order) (simp add: scenario_log_def)
  from C4_self_consistency [of scenario_log "''order''"] e ob
  show ?thesis by fastforce
qed

text \<open>C5. Type coverage. Whenever the orchestrator returns, the keys of both result
  dictionaries, in iteration order, are the object types of the Object table in
  first-seen order: each type once, none missing, none extra, and not sorted.\<close>

theorem C5_type_coverage:
  assumes "discover_object_wise_sub_models_with_counts dis vw L = Inr (t, counts, models)"
  shows "map fst counts = first_seen (map ob_type (objects L)) \<and>
         map fst models = first_seen (map ob_type (objects L)) \<and>
         set (map fst counts) = ob_type ` set (objects L) \<and>
         set (map fst models) = ob_type ` set (objects L) \<and>
         distinct (map fst counts) \<and> distinct (map fst models)"
proof -
  let ?Ts = "unique (map ob_type (objects L))"
  from run_Inr(2) [OF assms] have c: "map fst counts = ?Ts"
    by (simp add: comp_def)
  from run_Inr(3) [OF assms]
  have "map fst (map (\<lambda>(T, x). (T, Inr x :: 'a + 'b)) models) =
        map fst (map (\<lambda>T. (T, dis (sub_ocel L (fst (extract_universal_relation L)) T))) ?Ts)"
    by (rule arg_cong)
  then have m: "map fst models = ?Ts"
    by (simp add: comp_def case_prod_unfold)
  have s: "set ?Ts = ob_type ` set (objects L)"
    by (simp add: set_unique)
  have d: "distinct ?Ts"
    by (rule distinct_unique)
  from c m s d show ?thesis
    by (simp add: unique_first_seen)
qed

text \<open>On the scenario log the keys are \<^verbatim>\<open>order\<close>, \<^verbatim>\<open>item\<close>, in this order,
  which is the order of the Object table and not the alphabetical one.\<close>

theorem C5_type_coverage_witness:
  "(\<exists>t counts models.
      discover_object_wise_sub_models_with_counts Inr (\<lambda>_. Inr ()) scenario_log =
        (Inr (t, counts, models) :: unit + _) \<and>
      map fst counts = [''order'', ''item''] \<and> map fst models = [''order'', ''item'']) \<and>
   first_seen (map ob_type (objects scenario_log)) = [''order'', ''item'']"
proof -
  have fs: "first_seen (map ob_type (objects scenario_log)) = [''order'', ''item'']"
    by (simp add: scenario_log_def)
  from C5_type_coverage [OF scenario_run] fs scenario_run show ?thesis
    by simp
qed

text \<open>C6, as amended. Let a relation row reference an object identifier that is not in
  the Object table. Then its entry of the universal relation has no object type, and so
  has every entry with that object identifier; the total count still is the number of
  relation rows; dropping the entries of that object changes no type's list of relevant
  event identifiers, so the entry selects no event for any type; the row is in the
  sub-log for \<open>T\<close> exactly when some relation row of the same event resolves to
  \<open>T\<close>; and the run fails only if an external call fails: if the discovery and the
  view succeed on the sub-log of every type, the orchestrator returns.\<close>

theorem C6_unresolved_reference:
  assumes "r \<in> set (relations L)"
    and "rel_oid r \<notin> ob_oid ` set (objects L)"
  shows "\<lparr>event_id = rel_eid r, object_id = rel_oid r, object_type = None\<rparr>
           \<in> set (fst (extract_universal_relation L)) \<and>
         (\<forall>en \<in> set (fst (extract_universal_relation L)).
            object_id en = rel_oid r \<longrightarrow> object_type en = None) \<and>
         snd (extract_universal_relation L) = length (relations L) \<and>
         (\<forall>T. relevant_event_ids
                 (filter (\<lambda>en. object_id en \<noteq> rel_oid r) (fst (extract_universal_relation L))) T =
               relevant_event_ids (fst (extract_universal_relation L)) T) \<and>
         (\<forall>T. r \<in> set (relations (sub_ocel L (fst (extract_universal_relation L)) T)) \<longleftrightarrow>
               (\<exists>r' \<in> set (relations L). rel_eid r' = rel_eid r \<and>
                  object_id_to_type (objects L) (rel_oid r') = Some T)) \<and>
         ((\<forall>T \<in> set (map ob_type (objects L)).
             \<exists>x. dis (sub_ocel L (fst (extract_universal_relation L)) T) = Inr x \<and> vw x = Inr ()) \<longrightarrow>
          (\<exists>c ms. discover_object_wise_sub_models_with_counts dis vw L =
                     Inr (length (relations L), c, ms)))"
proof -
  let ?ur = "fst (extract_universal_relation L)"
  let ?m = "object_id_to_type (objects L)"
  from assms(2) have none: "?m (rel_oid r) = None"
    by (simp add: object_id_to_type_None)
  have p1: "\<lparr>event_id = rel_eid r, object_id = rel_oid r, object_type = None\<rparr> \<in> set ?ur"
  proof -
    have "entry_of ?m r \<in> set ?ur"
      using assms(1) by (simp add: set_universal_relation)
    then show ?thesis
      by (simp add: entry_of_def none)
  qed
  have p2: "object_type en = None" if "en \<in> set ?ur" "object_id en = rel_oid r" for en
  proof -
    from that(1) obtain r' where "en = entry_of ?m r'"
      by (auto simp: set_universal_relation)
    with that(2) none show ?thesis
      by (simp add: entry_of_def)
  qed
  have p3: "snd (extract_universal_relation L) = length (relations L)"
    by (simp add: snd_extract length_universal_relation)
  have p4: "relevant_event_ids (filter (\<lambda>en. object_id en \<noteq> rel_oid r) ?ur) T =
            relevant_event_ids ?ur T" for T
  proof -
    have "filter (\<lambda>en. object_id en \<noteq> rel_oid r \<and> object_type en = Some T) ?ur =
          filter (\<lambda>en. object_type en = Some T) ?ur"
      by (rule filter_cong) (auto dest: p2)
    then show ?thesis
      by (simp add: relevant_event_ids_def)
  qed
  have p5: "r \<in> set (relations (sub_ocel L ?ur T)) \<longleftrightarrow>
            (\<exists>r' \<in> set (relations L). rel_eid r' = rel_eid r \<and> ?m (rel_oid r') = Some T)" for T
    using assms(1)
    by (simp add: relations_sub_ocel sub_relations_def set_relevant_event_ids) metis
  have p6: "\<exists>c ms. discover_object_wise_sub_models_with_counts dis vw L =
                     Inr (length (relations L), c, ms)"
    if "\<forall>T \<in> set (map ob_type (objects L)).
          \<exists>x. dis (sub_ocel L ?ur T) = Inr x \<and> vw x = Inr ()"
    by (rule run_succeeds) (use that in blast)
  from p1 p2 p3 p4 p5 p6 show ?thesis
    by blast
qed

text \<open>The amended statement at \<open>dangling_log\<close> and the row that references
  \<^verbatim>\<open>o9\<close>: the row is in the sub-log for \<^verbatim>\<open>order\<close> and not in the one for
  \<^verbatim>\<open>item\<close>, and the run returns.\<close>

theorem C6_unresolved_reference_witness:
  "\<lparr>rel_eid = ''e1'', rel_oid = ''o9'', rel_other = []\<rparr> \<in> set (relations dangling_log) \<and>
   ''o9'' \<notin> ob_oid ` set (objects dangling_log) \<and>
   \<lparr>event_id = ''e1'', object_id = ''o9'', object_type = None\<rparr>
     \<in> set (fst (extract_universal_relation dangling_log)) \<and>
   snd (extract_universal_relation dangling_log) = 2 \<and>
   relevant_event_ids (fst (extract_universal_relation dangling_log)) ''order'' = [''e1''] \<and>
   \<lparr>rel_eid = ''e1'', rel_oid = ''o9'', rel_other = []\<rparr>
     \<in> set (relations (sub_ocel dangling_log (fst (extract_universal_relation dangling_log)) ''order'')) \<and>
   \<lparr>rel_eid = ''e1'', rel_oid = ''o9'', rel_other = []\<rparr>
     \<notin> set (relations (sub_ocel dangling_log (fst (extract_universal_relation dangling_log)) ''item'')) \<and>
   (\<exists>c ms. discover_object_wise_sub_models_with_counts Inr (\<lambda>_. Inr ()) dangling_log =
      (Inr (2, c, ms) :: unit + _))"
proof -
  let ?r = "\<lparr>rel_eid = ''e1'', rel_oid = ''o9'', rel_other = []\<rparr>"
  have a: "?r \<in> set (relations dangling_log)"
    by (simp add: dangling_log_def)
  have b: "rel_oid ?r \<notin> ob_oid ` set (objects dangling_log)"
    by (simp add: dangling_log_def)
  have len: "length (relations dangling_log) = 2"
    by (simp add: dangling_log_def)
  have rel: "relevant_event_ids (fst (extract_universal_relation dangling_log)) ''order'' = [''e1'']"
    by (simp add: dangling_universal_relation relevant_event_ids_def)
  have ord: "?r \<in> set (relations (sub_ocel dangling_log
                 (fst (extract_universal_relation dangling_log)) ''order''))"
    by (simp add: relations_sub_ocel dangling_sub_relations_order)
  have itm: "?r \<notin> set (relations (sub_ocel dangling_log
                 (fst (extract_universal_relation dangling_log)) ''item''))"
    by (simp add: relations_sub_ocel dangling_sub_relations_item)
  from C6_unresolved_reference [OF a b, of "Inr :: ocel \<Rightarrow> unit + ocel" "\<lambda>_. Inr ()"]
  show ?thesis
    using a b len rel ord itm dangling_run by simp
qed

text \<open>The claim as the specification words it also says that such an entry is excluded
  from every per-type partition. That part fails: in \<open>dangling_log\<close> the row that
  references the unknown object \<^verbatim>\<open>o9\<close> is in the sub-log for \<^verbatim>\<open>order\<close>, and
  the count for \<^verbatim>\<open>order\<close> is 2, because the row's event \<^verbatim>\<open>e1\<close> is relevant
  to \<^verbatim>\<open>order\<close> through its other relation.\<close>

theorem C6_counterexample:
  "\<lparr>rel_eid = ''e1'', rel_oid = ''o9'', rel_other = []\<rparr> \<in> set (relations dangling_log) \<and>
   ''o9'' \<notin> ob_oid ` set (objects dangling_log) \<and>
   \<lparr>rel_eid = ''e1'', rel_oid = ''o9'', rel_other = []\<rparr>
     \<in> set (relations (sub_ocel dangling_log (fst (extract_universal_relation dangling_log)) ''order'')) \<and>
   (\<exists>models. discover_object_wise_sub_models_with_counts Inr (\<lambda>_. Inr ()) dangling_log =
      (Inr (2, [(''order'', 2), (''item'', 0)], models) :: unit + _))"
proof -
  have "\<lparr>rel_eid = ''e1'', rel_oid = ''o9'', rel_other = []\<rparr> \<in> set (relations dangling_log)"
    and "''o9'' \<notin> ob_oid ` set (objects dangling_log)"
    by (simp_all add: dangling_log_def)
  moreover have "\<lparr>rel_eid = ''e1'', rel_oid = ''o9'', rel_other = []\<rparr>
     \<in> set (relations (sub_ocel dangling_log (fst (extract_universal_relation dangling_log)) ''order''))"
    by (simp add: relations_sub_ocel dangling_sub_relations_order)
  ultimately show ?thesis
    using dangling_run by simp
qed

text \<open>C7. The extracted universal relation is the sequence the specification
  describes: for each event identifier in first-seen order, the rows of the Relation
  table with that event identifier, in table order, each with the object type the
  Object-table mapping gives its object identifier, and no type when the identifier is
  unknown.\<close>

theorem C7_grouped_order:
  "fst (extract_universal_relation L) = spec_universal_relation L"
proof -
  have "fst (extract_universal_relation L) =
          concat (map (\<lambda>(eid, oids).
              map (\<lambda>oid. \<lparr>event_id = eid, object_id = oid,
                           object_type = spec_type_of (objects L) oid\<rparr>) oids)
            (groups_of (relations L)))"
    by (simp add: extract_universal_relation_def Let_def event_to_objects_groups
          object_id_to_type_spec)
  also have "\<dots> = spec_universal_relation L"
    by (simp add: groups_of_def spec_universal_relation_def comp_def)
  finally show ?thesis .
qed

text \<open>C8. The relevant event identifiers act as a set. A row of the Event table occurs
  in the sub-log's Event table as often as in the Event table when its event identifier
  is relevant, and not at all otherwise; the same holds for the rows of the Relation
  table; and removing the duplicates from the list of relevant identifiers changes
  neither table. In \<open>repeated_log\<close> the event \<^verbatim>\<open>e1\<close> is listed twice as
  relevant to \<^verbatim>\<open>item\<close>, yet its event row and each of its relation rows occur
  once.\<close>

theorem C8_relevant_events_as_set:
  "count_list (sub_events L ur T) e =
     (if ev_eid e \<in> set (relevant_event_ids ur T) then count_list (events L) e else 0) \<and>
   count_list (sub_relations L ur T) r =
     (if rel_eid r \<in> set (relevant_event_ids ur T) then count_list (relations L) r else 0) \<and>
   sub_events L ur T =
     filter (\<lambda>e. ev_eid e \<in> set (remdups (relevant_event_ids ur T))) (events L) \<and>
   sub_relations L ur T =
     filter (\<lambda>r. rel_eid r \<in> set (remdups (relevant_event_ids ur T))) (relations L) \<and>
   relevant_event_ids (fst (extract_universal_relation repeated_log)) ''item'' = [''e1'', ''e1''] \<and>
   sub_events repeated_log (fst (extract_universal_relation repeated_log)) ''item'' =
     [\<lparr>ev_eid = ''e1'', ev_other = []\<rparr>] \<and>
   sub_relations repeated_log (fst (extract_universal_relation repeated_log)) ''item'' =
     [\<lparr>rel_eid = ''e1'', rel_oid = ''o1'', rel_other = []\<rparr>,
      \<lparr>rel_eid = ''e1'', rel_oid = ''o2'', rel_other = []\<rparr>]"
proof -
  have ev: "sub_events repeated_log (fst (extract_universal_relation repeated_log)) ''item'' =
     [\<lparr>ev_eid = ''e1'', ev_other = []\<rparr>]"
    using arg_cong [OF repeated_sub_ocel, of events] by (simp add: events_sub_ocel)
  have rl: "sub_relations repeated_log (fst (extract_universal_relation repeated_log)) ''item'' =
     [\<lparr>rel_eid = ''e1'', rel_oid = ''o1'', rel_other = []\<rparr>,
      \<lparr>rel_eid = ''e1'', rel_oid = ''o2'', rel_other = []\<rparr>]"
    using arg_cong [OF repeated_sub_ocel, of relations]
    by (simp add: relations_sub_ocel) (simp add: repeated_log_def)
  show ?thesis
    by (simp add: ev rl repeated_relevant)
       (simp add: sub_events_def sub_relations_def count_list_filter)
qed

text \<open>C9. Determinism. Two runs on the same log give the same outcome (the same total,
  the same counts and models in the same order, or the same failure) whenever the
  external calls of the two runs behave alike on what the orchestrator hands them: the
  discovery gives the same answer on the sub-log of every type, and the view gives the
  same answer on every model the discovery returns. The sub-logs handed over depend on
  the log alone.\<close>

theorem C9_determinism:
  assumes "\<forall>T \<in> set (map ob_type (objects L)).
             dis1 (sub_ocel L (fst (extract_universal_relation L)) T) =
             dis2 (sub_ocel L (fst (extract_universal_relation L)) T)"
    and "\<forall>T \<in> set (map ob_type (objects L)). \<forall>x.
             dis1 (sub_ocel L (fst (extract_universal_relation L)) T) = Inr x \<longrightarrow> vw1 x = vw2 x"
  shows "discover_object_wise_sub_models_with_counts dis1 vw1 L =
         discover_object_wise_sub_models_with_counts dis2 vw2 L"
proof -
  let ?ur = "fst (extract_universal_relation L)"
  let ?Ts = "unique (map ob_type (objects L))"
  have step: "discover_sub_model_for_object_type dis1 vw1 L ?ur T =
              discover_sub_model_for_object_type dis2 vw2 L ?ur T" if "T \<in> set ?Ts" for T
  proof -
    from that have T: "T \<in> set (map ob_type (objects L))"
      by (simp add: set_unique)
    from assms(1) T have d: "dis1 (sub_ocel L ?ur T) = dis2 (sub_ocel L ?ur T)"
      by blast
    from assms(2) T have v: "\<And>x. dis1 (sub_ocel L ?ur T) = Inr x \<Longrightarrow> vw1 x = vw2 x"
      by blast
    show ?thesis
    proof (cases "dis1 (sub_ocel L ?ur T)")
      case (Inl err)
      with d have "dis2 (sub_ocel L ?ur T) = Inl err"
        by simp
      with Inl show ?thesis
        by (simp add: discover_sub_model_for_object_type_def Let_def)
    next
      case (Inr x)
      with d have "dis2 (sub_ocel L ?ur T) = Inr x"
        by simp
      with Inr v [OF Inr] show ?thesis
        by (simp add: discover_sub_model_for_object_type_def Let_def)
    qed
  qed
  have "discover_loop dis1 vw1 L ?ur ?Ts [] [] = discover_loop dis2 vw2 L ?ur ?Ts [] []"
    by (rule discover_loop_cong) (rule step)
  then show ?thesis
    by (simp add: discover_object_wise_sub_models_with_counts_def Let_def case_prod_unfold)
qed

text \<open>Two different discovery services that agree on the scenario's sub-logs: the runs
  agree, and since both services return the sub-log they were given, the models show the
  sub-logs of the two runs to be the same.\<close>

theorem C9_determinism_witness:
  "picky_discover \<noteq> Inr \<and>
   discover_object_wise_sub_models_with_counts picky_discover (\<lambda>_. Inr ()) scenario_log =
   discover_object_wise_sub_models_with_counts Inr (\<lambda>_. Inr ()) scenario_log \<and>
   discover_object_wise_sub_models_with_counts picky_discover (\<lambda>_. Inr ()) scenario_log =
     Inr (3, [(''order'', 2), (''item'', 3)],
        [(''order'', sub_ocel scenario_log (fst (extract_universal_relation scenario_log)) ''order''),
         (''item'', sub_ocel scenario_log (fst (extract_universal_relation scenario_log)) ''item'')])"
proof -
  let ?ur = "fst (extract_universal_relation scenario_log)"
  have ne: "picky_discover \<noteq> Inr"
  proof
    assume "picky_discover = Inr"
    then have "picky_discover \<lparr>events = [], objects = [], relations = []\<rparr> =
               Inr \<lparr>events = [], objects = [], relations = []\<rparr>"
      by simp
    then show False
      by (simp add: picky_discover_def)
  qed
  have a: "\<forall>T \<in> set (map ob_type (objects scenario_log)).
             picky_discover (sub_ocel scenario_log ?ur T) = Inr (sub_ocel scenario_log ?ur T)"
  proof -
    have ts: "set (map ob_type (objects scenario_log)) = {''order'', ''item''}"
      by (simp add: scenario_log_def)
    have ev: "events scenario_log \<noteq> []"
      by (simp add: scenario_log_def)
    have o: "picky_discover (sub_ocel scenario_log ?ur ''order'') =
               Inr (sub_ocel scenario_log ?ur ''order'')"
      by (simp add: scenario_sub_ocel_order picky_discover_def)
    have i: "picky_discover (sub_ocel scenario_log ?ur ''item'') =
               Inr (sub_ocel scenario_log ?ur ''item'')"
      using ev by (simp add: scenario_sub_ocel_item picky_discover_def)
    show ?thesis
      unfolding ts using o i by simp
  qed
  have b: "\<forall>T \<in> set (map ob_type (objects scenario_log)). \<forall>x.
             picky_discover (sub_ocel scenario_log ?ur T) = Inr x \<longrightarrow>
             (\<lambda>_. Inr ()) x = ((\<lambda>_. Inr ()) x :: unit + unit)"
    by simp
  from C9_determinism [OF a b] ne scenario_run show ?thesis
    by (simp add: scenario_sub_ocel_order scenario_sub_ocel_item)
qed

text \<open>C10. When the per-type step returns a count for \<open>T\<close> on the extracted universal
  relation, the count is at least the number of entries of the universal relation whose
  type is \<open>T\<close>; it is at least 1 when some relation row resolves to \<open>T\<close>, and it is
  0 when none does.\<close>

theorem C10_sub_count_lower_bound:
  assumes "discover_sub_model_for_object_type dis vw L (fst (extract_universal_relation L)) T =
             Inr (c, x)"
  shows "length (filter (\<lambda>en. object_type en = Some T) (fst (extract_universal_relation L))) \<le> c \<and>
         ((\<exists>r \<in> set (relations L). object_id_to_type (objects L) (rel_oid r) = Some T) \<longrightarrow> 1 \<le> c) \<and>
         ((\<forall>r \<in> set (relations L). object_id_to_type (objects L) (rel_oid r) \<noteq> Some T) \<longrightarrow> c = 0)"
proof -
  let ?ur = "fst (extract_universal_relation L)"
  let ?m = "object_id_to_type (objects L)"
  let ?rel = "relevant_event_ids ?ur T"
  from assms have c: "c = length (filter (\<lambda>r. rel_eid r \<in> set ?rel) (relations L))"
    by (auto simp: discover_sub_model_for_object_type_def Let_def relations_sub_ocel
          sub_relations_def split: sum.splits)
  have n: "length (filter (\<lambda>en. object_type en = Some T) ?ur) =
           length (filter (\<lambda>r. ?m (rel_oid r) = Some T) (relations L))"
    by (simp add: length_filter_universal_relation entry_of_def)
  have le: "length (filter (\<lambda>r. ?m (rel_oid r) = Some T) (relations L)) \<le> c"
    unfolding c
    by (rule length_filter_mono) (auto simp: set_relevant_event_ids)
  have pos: "1 \<le> c" if "\<exists>r \<in> set (relations L). ?m (rel_oid r) = Some T"
  proof -
    from that have "filter (\<lambda>r. ?m (rel_oid r) = Some T) (relations L) \<noteq> []"
      by (auto simp: filter_empty_conv)
    then have "1 \<le> length (filter (\<lambda>r. ?m (rel_oid r) = Some T) (relations L))"
      by (cases "filter (\<lambda>r. ?m (rel_oid r) = Some T) (relations L)") simp_all
    with le show ?thesis by simp
  qed
  have zero: "c = 0" if "\<forall>r \<in> set (relations L). ?m (rel_oid r) \<noteq> Some T"
  proof -
    from that have "set ?rel = {}"
      unfolding set_relevant_event_ids by blast
    then show ?thesis
      unfolding c by simp
  qed
  from n le pos zero show ?thesis
    by simp
qed

text \<open>The statement at the scenario's type \<^verbatim>\<open>order\<close> (one entry, count 2) and at
  the type \<^verbatim>\<open>item\<close> of \<open>dangling_log\<close> (no entry, count 0).\<close>

theorem C10_sub_count_lower_bound_witness:
  "discover_sub_model_for_object_type Inr (\<lambda>_. Inr ()) scenario_log
     (fst (extract_universal_relation scenario_log)) ''order'' =
     (Inr (2, sub_ocel scenario_log (fst (extract_universal_relation scenario_log)) ''order'')
        :: unit + _) \<and>
   length (filter (\<lambda>en. object_type en = Some ''order'')
             (fst (extract_universal_relation scenario_log))) = 1 \<and>
   (\<exists>r \<in> set (relations scenario_log).
      object_id_to_type (objects scenario_log) (rel_oid r) = Some ''order'') \<and>
   discover_sub_model_for_object_type Inr (\<lambda>_. Inr ()) dangling_log
     (fst (extract_universal_relation dangling_log)) ''item'' =
     (Inr (0, sub_ocel dangling_log (fst (extract_universal_relation dangling_log)) ''item'')
        :: unit + _) \<and>
   length (filter (\<lambda>en. object_type en = Some ''item'')
             (fst (extract_universal_relation dangling_log))) = 0"
proof -
  have s: "discover_sub_model_for_object_type Inr (\<lambda>_. Inr ()) scenario_log
     (fst (extract_universal_relation scenario_log)) ''order'' =
     (Inr (2, sub_ocel scenario_log (fst (extract_universal_relation scenario_log)) ''order'')
        :: unit + _)"
    by (simp add: scenario_step_order scenario_sub_ocel_order)
  have d: "discover_sub_model_for_object_type Inr (\<lambda>_. Inr ()) dangling_log
     (fst (extract_universal_relation dangling_log)) ''item'' =
     (Inr (0, sub_ocel dangling_log (fst (extract_universal_relation dangling_log)) ''item'')
        :: unit + _)"
    by (simp add: dangling_step_item dangling_sub_ocel_item)
  have n1: "length (filter (\<lambda>en. object_type en = Some ''order'')
             (fst (extract_universal_relation scenario_log))) = 1"
    by code_simp
  have ex: "\<exists>r \<in> set (relations scenario_log).
      object_id_to_type (objects scenario_log) (rel_oid r) = Some ''order''"
    by (simp add: scenario_log_def object_id_to_type_def)
  from C10_sub_count_lower_bound [OF s] C10_sub_count_lower_bound [OF d] s d n1 ex
  show ?thesis by simp
qed

end
